theory Spec2Isabelle
  imports Main "HOL-Library.Sublist"
begin

section \<open>The resource catalog (\<open>GatewayAPIResources\<close>)\<close>

text \<open>
  \<open>schema.GroupVersion\<close> and \<open>schema.GroupVersionResource\<close> are structs of strings.
  The second has the fields of the first and a \<open>Resource\<close> field, so it is modelled as
  an extension of the first record.
\<close>

record GroupVersion =
  Group :: string
  Version :: string

record GroupVersionResource = GroupVersion +
  Resource :: string

text \<open>
  \<open>GatewayAPIResources\<close> (operator.go, lines 135-153). The package variable
  \<open>gatewayv1alpha1.GroupVersion\<close> belongs to the imported Gateway API module, so it is
  the parameter \<open>gv\<close>.
\<close>

definition GatewayAPIResources :: "GroupVersion \<Rightarrow> GroupVersionResource list" where
  "GatewayAPIResources gv =
     [\<lparr>Group = Group gv, Version = Version gv, Resource = ''gatewayclasses''\<rparr>,
      \<lparr>Group = Group gv, Version = Version gv, Resource = ''gateways''\<rparr>,
      \<lparr>Group = Group gv, Version = Version gv, Resource = ''httproutes''\<rparr>,
      \<lparr>Group = Group gv, Version = Version gv, Resource = ''tlsroutes''\<rparr>]"

section \<open>Errors\<close>

text \<open>
  A Go \<open>error\<close> value is either a plain error carrying its message, or the value
  that \<open>fmt.Errorf\<close> builds for a format ending in \<open>%w\<close>: it carries its own
  message and the error it wraps. A nil \<open>error\<close> is \<open>None\<close> of
  \<open>error option\<close>. Equality of these values stands for identity of the Go values.
\<close>

datatype error = errorString string | wrapError string error

fun Error :: "error \<Rightarrow> string" where
  "Error (errorString s) = s"
| "Error (wrapError msg err) = msg"

fun Unwrap :: "error \<Rightarrow> error option" where
  "Unwrap (errorString s) = None"
| "Unwrap (wrapError msg err) = Some err"

text \<open>
  \<open>fmt.Errorf(format + "%w", err)\<close>: the message is the text of the format
  followed by the message of \<open>err\<close>, and \<open>Unwrap\<close> gives \<open>err\<close> back.
\<close>

definition Errorf_w :: "string \<Rightarrow> error \<Rightarrow> error" where
  "Errorf_w format err = wrapError (format @ Error err) err"

text \<open>The chain that repeated \<open>errors.Unwrap\<close> walks, outermost error first.\<close>

fun chain :: "error \<Rightarrow> error list" where
  "chain (errorString s) = [errorString s]"
| "chain (wrapError msg err) = wrapError msg err # chain err"

section \<open>Bootstrap (\<open>New\<close>)\<close>

text \<open>
  The object types that can be handed to the manager's client. The four named in
  \<open>New\<close> are constructors of their own; \<open>OtherObject\<close> stands for every other
  type of the operator's scheme.
\<close>

datatype client_Object =
    Contour | GatewayClass | Gateway | CustomResourceDefinition | OtherObject string

text \<open>\<open>rest.Config\<close> is opaque to this code; only its identity matters.\<close>

record rest_Config =
  Host :: string

text \<open>The fields of \<open>config.Config\<close> that \<open>New\<close> reads.\<close>

record Config =
  LeaderElection :: bool
  LeaderElectionID :: string
  MetricsBindAddress :: string
  ContourImage :: string
  EnvoyImage :: string

text \<open>The fields of \<open>manager.Options\<close> that \<open>New\<close> sets.\<close>

record 's Options =
  Scheme :: 's
  LeaderElection :: bool
  LeaderElectionID :: string
  MetricsBindAddress :: string
  ClientDisableCacheFor :: "client_Object list"

record controller_Config =
  ContourImage :: string
  EnvoyImage :: string

text \<open>
  \<open>Client\<close> embeds \<open>client.Client\<close> and \<open>meta.RESTMapper\<close>; an embedded field is
  named after its type.
\<close>

record ('c, 'r) Client =
  Client :: 'c
  RESTMapper :: 'r

text \<open>A \<open>logr.Logger\<close> is identified by the names given to it with \<open>WithName\<close>.\<close>

type_synonym Logger = "string list"

definition Log :: Logger where
  "Log = []"

definition WithName :: "Logger \<Rightarrow> string \<Rightarrow> Logger" where
  "WithName l name = l @ [name]"

definition operatorName :: string where
  "operatorName = ''contour_operator''"

record ('m, 'c, 'r) Operator =
  client :: "('c, 'r) Client"
  manager :: 'm
  log :: Logger
  config :: Config

text \<open>
  What \<open>New\<close> calls outside this file. Each call that talks to the cluster or
  changes the manager takes the state of the world \<open>'w\<close> and returns the new one
  beside its result. \<open>controller.New\<close> returns a controller and an error; \<open>New\<close>
  drops the controller, so only the error (\<open>None\<close> for nil) is kept.
\<close>

record ('w, 'm, 'c, 'r, 's) collaborators =
  GetOperatorScheme :: 's
  NewManager :: "rest_Config \<Rightarrow> 's Options \<Rightarrow> 'w \<Rightarrow> (error + 'm) \<times> 'w"
  controller_New :: "'m \<Rightarrow> controller_Config \<Rightarrow> 'w \<Rightarrow> error option \<times> 'w"
  NewDiscoveryRESTMapper :: "rest_Config \<Rightarrow> 'w \<Rightarrow> (error + 'r) \<times> 'w"
  GetClient :: "'m \<Rightarrow> 'c"

text \<open>The local variables \<open>nonCached\<close> and \<open>mgrOpts\<close> of \<open>New\<close> (lines 81-89).\<close>

definition nonCached :: "client_Object list" where
  "nonCached = [Contour, GatewayClass, Gateway, CustomResourceDefinition]"

definition mgrOpts :: "('w, 'm, 'c, 'r, 's) collaborators \<Rightarrow> Config \<Rightarrow> 's Options" where
  "mgrOpts K opCfg =
     \<lparr>Scheme = GetOperatorScheme K,
      Options.LeaderElection = Config.LeaderElection opCfg,
      Options.LeaderElectionID = Config.LeaderElectionID opCfg,
      Options.MetricsBindAddress = Config.MetricsBindAddress opCfg,
      ClientDisableCacheFor = nonCached\<rparr>"

text \<open>The \<open>controller.Config\<close> literal of lines 96-99.\<close>

definition ctrlCfg :: "Config \<Rightarrow> controller_Config" where
  "ctrlCfg opCfg =
     \<lparr>controller_Config.ContourImage = Config.ContourImage opCfg,
      controller_Config.EnvoyImage = Config.EnvoyImage opCfg\<rparr>"

text \<open>
  \<open>New\<close> (lines 80-114). The result is Go's pair of an operator pointer and an error,
  either of which can be nil, beside the state of the world after the calls made.
\<close>

definition New ::
  "('w, 'm, 'c, 'r, 's) collaborators \<Rightarrow> rest_Config \<Rightarrow> Config \<Rightarrow> 'w
     \<Rightarrow> (('m, 'c, 'r) Operator option \<times> error option) \<times> 'w" where
  "New K cliCfg opCfg w =
     (case NewManager K cliCfg (mgrOpts K opCfg) w of
        (Inl err, w1) \<Rightarrow> ((None, Some (Errorf_w ''failed to create manager: '' err)), w1)
      | (Inr mgr, w1) \<Rightarrow>
          (case controller_New K mgr (ctrlCfg opCfg) w1 of
             (Some err, w2) \<Rightarrow>
               ((None, Some (Errorf_w ''failed to create contour controller: '' err)), w2)
           | (None, w2) \<Rightarrow>
               (case NewDiscoveryRESTMapper K cliCfg w2 of
                  (Inl err, w3) \<Rightarrow> ((None, Some err), w3)
                | (Inr restMapper, w3) \<Rightarrow>
                    ((Some \<lparr>client = \<lparr>Client = GetClient K mgr, RESTMapper = restMapper\<rparr>,
                            manager = mgr,
                            log = WithName Log operatorName,
                            config = opCfg\<rparr>,
                      None), w3))))"

text \<open>
  Collaborators for running \<open>New\<close> on concrete inputs: the world is the list of the
  calls made so far, each call appends its name and returns the outcome it was given.
  Managers, clients, REST mappers and schemes are numbers.
\<close>

definition recording ::
  "(error + nat) \<Rightarrow> error option \<Rightarrow> (error + nat)
     \<Rightarrow> (string list, nat, nat, nat, nat) collaborators" where
  "recording mres cres dres =
     \<lparr>GetOperatorScheme = 0,
      NewManager = (\<lambda>cliCfg opts w. (mres, w @ [''NewManager''])),
      controller_New = (\<lambda>mgr cfg w. (cres, w @ [''controller.New''])),
      NewDiscoveryRESTMapper = (\<lambda>cliCfg w. (dres, w @ [''NewDiscoveryRESTMapper''])),
      GetClient = (\<lambda>mgr. mgr)\<rparr>"

definition cliCfg0 :: rest_Config where
  "cliCfg0 = \<lparr>Host = ''https://10.0.0.1:6443''\<rparr>"

definition opCfg0 :: Config where
  "opCfg0 =
     \<lparr>Config.LeaderElection = False,
      Config.LeaderElectionID = ''0d879e31.projectcontour.io'',
      Config.MetricsBindAddress = '':8080'',
      Config.ContourImage = ''contour:main'',
      Config.EnvoyImage = ''envoy:v1.19''\<rparr>"

text \<open>
  Any collaborators with their calls traced: the world gets the list of the calls
  made so far beside it, each call does what it did and appends its name.
\<close>

definition traced ::
  "('w, 'm, 'c, 'r, 's) collaborators \<Rightarrow> ('w \<times> string list, 'm, 'c, 'r, 's) collaborators" where
  "traced K =
     \<lparr>GetOperatorScheme = GetOperatorScheme K,
      NewManager = (\<lambda>cliCfg opts (w, calls).
         (fst (NewManager K cliCfg opts w),
          (snd (NewManager K cliCfg opts w), calls @ [''NewManager'']))),
      controller_New = (\<lambda>mgr cfg (w, calls).
         (fst (controller_New K mgr cfg w),
          (snd (controller_New K mgr cfg w), calls @ [''controller.New'']))),
      NewDiscoveryRESTMapper = (\<lambda>cliCfg (w, calls).
         (fst (NewDiscoveryRESTMapper K cliCfg w),
          (snd (NewDiscoveryRESTMapper K cliCfg w), calls @ [''NewDiscoveryRESTMapper'']))),
      GetClient = GetClient K\<rparr>"

section \<open>Running the manager (\<open>Start\<close>)\<close>

text \<open>
  \<open>Start\<close> (lines 118-131) runs two goroutines that meet at the channel \<open>errChan\<close>.
  The state has the position of each, the values waiting in the channel's buffer, and
  whether \<open>ctx\<close> is cancelled.

  The caller is before the \<open>go\<close> statement, blocked in the \<open>select\<close>, or has
  returned a value. The spawned goroutine does not exist yet, is inside
  \<open>o.manager.Start(ctx)\<close>, is at the send \<open>errChan <- v\<close> with the value \<open>v\<close>
  that the manager returned, or has completed the send and ended.

  \<open>Start\<close> never looks into an error value or builds one, so the type \<open>'e\<close> of the
  values of Go's \<open>error\<close> is left open; \<open>None\<close> is nil. Taken as the type of
  references to error objects, equality on \<open>'e\<close> is identity.
\<close>

datatype 'e caller_pc = AtEntry | AtSelect | Returned "'e option"

datatype 'e goroutine_pc = NotSpawned | InManagerStart | SendBlocked "'e option" | Ended

record 'e start_state =
  ctx_Done :: bool
  errChan :: "'e option list"
  caller :: "'e caller_pc"
  goroutine :: "'e goroutine_pc"

text \<open>
  What can happen in a run: the caller makes the channel and spawns the goroutine;
  somebody cancels \<open>ctx\<close>; the manager's \<open>Start\<close> returns a value (nil or an error);
  the goroutine's send completes by putting the value into the channel's buffer; the
  \<open>select\<close> takes its first case, \<open><-ctx.Done()\<close>; the \<open>select\<close> takes its
  second case, \<open>err := <-errChan\<close>.
\<close>

datatype 'e event =
    GoFunc | CtxCancel | ManagerStartReturns "'e option" | SendBuffered
  | CaseCtxDone | CaseErrChan

text \<open>
  One step with a channel of capacity \<open>n\<close>; \<open>None\<close> when the event cannot happen in
  the state. A send completes into the buffer only while the buffer holds fewer than
  \<open>n\<close> values. A \<open>select\<close> case can be taken only when it is ready: \<open>ctx.Done()\<close>
  is closed; or the buffer holds a value; or the buffer is empty and the goroutine is
  blocked in the send, and then the receive and the send complete together.
  Cancelling a cancelled context changes nothing.
\<close>

fun chan_step :: "nat \<Rightarrow> 'e event \<Rightarrow> 'e start_state \<Rightarrow> 'e start_state option" where
  "chan_step n GoFunc s =
     (if caller s = AtEntry
      then Some (s\<lparr>caller := AtSelect, goroutine := InManagerStart\<rparr>) else None)"
| "chan_step n CtxCancel s = Some (s\<lparr>ctx_Done := True\<rparr>)"
| "chan_step n (ManagerStartReturns v) s =
     (if goroutine s = InManagerStart then Some (s\<lparr>goroutine := SendBlocked v\<rparr>) else None)"
| "chan_step n SendBuffered s =
     (case goroutine s of
        SendBlocked v \<Rightarrow>
          (if length (errChan s) < n
           then Some (s\<lparr>errChan := errChan s @ [v], goroutine := Ended\<rparr>) else None)
      | _ \<Rightarrow> None)"
| "chan_step n CaseCtxDone s =
     (if caller s = AtSelect \<and> ctx_Done s then Some (s\<lparr>caller := Returned None\<rparr>) else None)"
| "chan_step n CaseErrChan s =
     (if caller s = AtSelect
      then (case errChan s of
              v # vs \<Rightarrow> Some (s\<lparr>errChan := vs, caller := Returned v\<rparr>)
            | [] \<Rightarrow>
                (case goroutine s of
                   SendBlocked v \<Rightarrow> Some (s\<lparr>caller := Returned v, goroutine := Ended\<rparr>)
                 | _ \<Rightarrow> None))
      else None)"

text \<open>A run is a list of events, each possible in the state the ones before it left.\<close>

fun chan_run :: "nat \<Rightarrow> 'e event list \<Rightarrow> 'e start_state \<Rightarrow> 'e start_state option" where
  "chan_run n [] s = Some s"
| "chan_run n (ev # evs) s =
     (case chan_step n ev s of None \<Rightarrow> None | Some s' \<Rightarrow> chan_run n evs s')"

text \<open>
  Line 119 is \<open>errChan := make(chan error)\<close>: no size is given, so the channel has
  no buffer.
\<close>

definition errChan_cap :: nat where
  "errChan_cap = 0"

definition Start_step :: "'e event \<Rightarrow> 'e start_state \<Rightarrow> 'e start_state option" where
  "Start_step ev s = chan_step errChan_cap ev s"

definition Start_run :: "'e event list \<Rightarrow> 'e start_state \<Rightarrow> 'e start_state option" where
  "Start_run evs s = chan_run errChan_cap evs s"

text \<open>
  A run begins at the entry of \<open>Start\<close>, with the channel just made; a context that
  is cancelled before the call is a run that begins with the cancellation.
\<close>

definition Start_init :: "'e start_state" where
  "Start_init = \<lparr>ctx_Done = False, errChan = [], caller = AtEntry, goroutine = NotSpawned\<rparr>"

text \<open>
  The execution contexts alive in a state: the caller until it returns, the spawned
  goroutine from the \<open>go\<close> statement until its send completes.
\<close>

definition active_contexts :: "'e start_state \<Rightarrow> nat" where
  "active_contexts s =
     (case caller s of Returned r \<Rightarrow> 0 | _ \<Rightarrow> 1)
     + (case goroutine s of NotSpawned \<Rightarrow> 0 | Ended \<Rightarrow> 0 | _ \<Rightarrow> 1)"

section \<open>Properties of the resource catalog\<close>

text \<open>
  C1. The catalog is a function of nothing but the imported group/version constant: every
  call returns the same sequence of exactly four descriptors, whose resources are
  gatewayclasses, gateways, httproutes, tlsroutes in this order, and neither udproutes nor
  tcproutes is among them.
\<close>

theorem GatewayAPIResources_catalog:
  "GatewayAPIResources gv =
       map (\<lambda>r. \<lparr>Group = Group gv, Version = Version gv, Resource = r\<rparr>)
         [''gatewayclasses'', ''gateways'', ''httproutes'', ''tlsroutes'']
   \<and> map Resource (GatewayAPIResources gv) =
       [''gatewayclasses'', ''gateways'', ''httproutes'', ''tlsroutes'']
   \<and> length (GatewayAPIResources gv) = 4
   \<and> ''udproutes'' \<notin> Resource ` set (GatewayAPIResources gv)
   \<and> ''tcproutes'' \<notin> Resource ` set (GatewayAPIResources gv)"
  by (simp add: GatewayAPIResources_def)

text \<open>
  C9. All four descriptors carry the group and the version of the Gateway API
  \<open>v1alpha1\<close> constant, and their resource fields are pairwise different, so the
  resource field is the only one in which two entries differ.
\<close>

theorem GatewayAPIResources_same_group_version:
  "map Group (GatewayAPIResources gv) = replicate 4 (Group gv)
   \<and> map Version (GatewayAPIResources gv) = replicate 4 (Version gv)
   \<and> distinct (map Resource (GatewayAPIResources gv))"
  by (simp add: GatewayAPIResources_def numeral_eq_Suc)

section \<open>Properties of \<open>New\<close>\<close>

subsection \<open>The four ways through \<open>New\<close>\<close>

text \<open>
  \<open>New\<close> ends in one of four ways: the manager cannot be made, the controller cannot
  be registered, the REST mapper cannot be made, or all three calls succeed.
\<close>

lemma New_cases:
  obtains (manager_failed) err w1 where
      "NewManager K cliCfg (mgrOpts K opCfg) w = (Inl err, w1)"
      "New K cliCfg opCfg w = ((None, Some (Errorf_w ''failed to create manager: '' err)), w1)"
  | (controller_failed) mgr w1 err w2 where
      "NewManager K cliCfg (mgrOpts K opCfg) w = (Inr mgr, w1)"
      "controller_New K mgr (ctrlCfg opCfg) w1 = (Some err, w2)"
      "New K cliCfg opCfg w
         = ((None, Some (Errorf_w ''failed to create contour controller: '' err)), w2)"
  | (discovery_failed) mgr w1 w2 err w3 where
      "NewManager K cliCfg (mgrOpts K opCfg) w = (Inr mgr, w1)"
      "controller_New K mgr (ctrlCfg opCfg) w1 = (None, w2)"
      "NewDiscoveryRESTMapper K cliCfg w2 = (Inl err, w3)"
      "New K cliCfg opCfg w = ((None, Some err), w3)"
  | (created) mgr w1 w2 restMapper w3 where
      "NewManager K cliCfg (mgrOpts K opCfg) w = (Inr mgr, w1)"
      "controller_New K mgr (ctrlCfg opCfg) w1 = (None, w2)"
      "NewDiscoveryRESTMapper K cliCfg w2 = (Inr restMapper, w3)"
      "New K cliCfg opCfg w
         = ((Some \<lparr>client = \<lparr>Client = GetClient K mgr, RESTMapper = restMapper\<rparr>,
                   manager = mgr, log = WithName Log operatorName, config = opCfg\<rparr>,
             None), w3)"
proof -
  obtain r1 w1 where m: "NewManager K cliCfg (mgrOpts K opCfg) w = (r1, w1)"
    by (cases "NewManager K cliCfg (mgrOpts K opCfg) w")
  show thesis
  proof (cases r1)
    case (Inl err)
    with m show thesis by (intro manager_failed [of err w1]) (simp_all add: New_def)
  next
    case (Inr mgr)
    obtain r2 w2 where c: "controller_New K mgr (ctrlCfg opCfg) w1 = (r2, w2)"
      by (cases "controller_New K mgr (ctrlCfg opCfg) w1")
    show thesis
    proof (cases r2)
      case (Some err)
      with m Inr c show thesis
        by (intro controller_failed [of mgr w1 err w2]) (simp_all add: New_def)
    next
      case None
      obtain r3 w3 where d: "NewDiscoveryRESTMapper K cliCfg w2 = (r3, w3)"
        by (cases "NewDiscoveryRESTMapper K cliCfg w2")
      show thesis
      proof (cases r3)
        case (Inl err)
        with m Inr c None d show thesis
          by (intro discovery_failed [of mgr w1 w2 err w3]) (simp_all add: New_def)
      next
        case (Inr restMapper)
        with m \<open>r1 = Inr mgr\<close> c None d show thesis
          by (intro created [of mgr w1 w2 restMapper w3]) (simp_all add: New_def)
      qed
    qed
  qed
qed


lemma recording_simps:
  "NewManager (recording mres cres dres) cliCfg opts w = (mres, w @ [''NewManager''])"
  "controller_New (recording mres cres dres) mgr cfg w = (cres, w @ [''controller.New''])"
  "NewDiscoveryRESTMapper (recording mres cres dres) cliCfg w
     = (dres, w @ [''NewDiscoveryRESTMapper''])"
  "GetClient (recording mres cres dres) mgr = mgr"
  "GetOperatorScheme (recording mres cres dres) = 0"
  by (simp_all add: recording_def)

subsection \<open>Failures of the manager and of the controller\<close>



subsection \<open>Failure of discovery\<close>

text \<open>
  C5. The failing input: the manager is made, the controller is registered, and
  \<open>NewDiscoveryRESTMapper\<close> fails with "connection refused". \<open>New\<close> returns that
  error as it is: its message does not start with
  "failed to create manager/discovery: ", and it wraps nothing. The two other error
  returns of \<open>New\<close> wrap their cause with the name of the phase; this one does not.
\<close>

theorem New_discovery_error_has_no_context:
  "New (recording (Inr 1) None (Inl (errorString ''connection refused''))) cliCfg0 opCfg0 []
     = ((None, Some (errorString ''connection refused'')),
        [''NewManager'', ''controller.New'', ''NewDiscoveryRESTMapper''])
   \<and> \<not> prefix ''failed to create manager/discovery: ''
          (Error (errorString ''connection refused''))
   \<and> Unwrap (errorString ''connection refused'') = None"
  by (simp add: New_def recording_simps)

text \<open>
  C6, as stated, fails: \<open>NewDiscoveryRESTMapper\<close> is the last call of \<open>New\<close>. In the
  run below it fails, and \<open>controller.New\<close> has been called before it.
\<close>

theorem New_registers_before_discovery:
  "''controller.New''
     \<in> set (snd (New (recording (Inr 1) None (Inl (errorString ''discovery timed out'')))
                  cliCfg0 opCfg0 []))
   \<and> fst (New (recording (Inr 1) None (Inl (errorString ''discovery timed out'')))
            cliCfg0 opCfg0 [])
     = (None, Some (errorString ''discovery timed out''))"
  by (simp add: New_def recording_simps)

text \<open>Tracing the calls changes neither the options built nor what the calls return.\<close>

lemma traced_simps:
  "NewManager (traced K) cliCfg opts (w, calls)
     = (fst (NewManager K cliCfg opts w),
        (snd (NewManager K cliCfg opts w), calls @ [''NewManager'']))"
  "controller_New (traced K) mgr cfg (w, calls)
     = (fst (controller_New K mgr cfg w),
        (snd (controller_New K mgr cfg w), calls @ [''controller.New'']))"
  "NewDiscoveryRESTMapper (traced K) cliCfg (w, calls)
     = (fst (NewDiscoveryRESTMapper K cliCfg w),
        (snd (NewDiscoveryRESTMapper K cliCfg w), calls @ [''NewDiscoveryRESTMapper'']))"
  "GetClient (traced K) = GetClient K"
  "mgrOpts (traced K) opCfg = mgrOpts K opCfg"
  by (simp_all add: traced_def mgrOpts_def)

lemma chain_self: "e \<in> set (chain e)"
  by (cases e) simp_all

text \<open>
  C6, amended. Take any collaborators and trace their calls. In every run of \<open>New\<close>
  the result is what it is without the trace. If \<open>NewDiscoveryRESTMapper\<close> is called
  at all, then the calls made are \<open>NewManager\<close>, \<open>controller.New\<close>,
  \<open>NewDiscoveryRESTMapper\<close> in this order, the first two have succeeded (the manager
  was made and the controller registered before discovery was tried), and if it fails
  then \<open>New\<close> returns a nil operator and an error with that failure in its chain of
  causes. If \<open>NewManager\<close> fails, which is where a discovery made inside the manager
  fails, then it is the only call made: no registration is attempted.
\<close>

theorem New_discovery_is_last:
  assumes traced_run: "New (traced K) cliCfg opCfg (w, []) = ((r, e), (w', calls))"
  shows "New K cliCfg opCfg w = ((r, e), w')
         \<and> (''NewDiscoveryRESTMapper'' \<in> set calls \<longrightarrow>
              calls = [''NewManager'', ''controller.New'', ''NewDiscoveryRESTMapper'']
              \<and> (\<exists>mgr w1 w2 res.
                    NewManager K cliCfg (mgrOpts K opCfg) w = (Inr mgr, w1)
                    \<and> controller_New K mgr (ctrlCfg opCfg) w1 = (None, w2)
                    \<and> NewDiscoveryRESTMapper K cliCfg w2 = (res, w')
                    \<and> (\<forall>err. res = Inl err \<longrightarrow>
                          r = None \<and> (\<exists>e'. e = Some e' \<and> err \<in> set (chain e')))))
         \<and> ((\<exists>err w1. NewManager K cliCfg (mgrOpts K opCfg) w = (Inl err, w1)) \<longrightarrow>
              calls = [''NewManager''] \<and> r = None)"
proof (cases rule: New_cases [of K cliCfg opCfg w])
  case (manager_failed err w1)
  from manager_failed(1)
  have "New (traced K) cliCfg opCfg (w, [])
          = ((None, Some (Errorf_w ''failed to create manager: '' err)), (w1, [''NewManager'']))"
    by (simp add: New_def traced_simps)
  with traced_run have "r = None" "e = Some (Errorf_w ''failed to create manager: '' err)"
    "w' = w1" "calls = [''NewManager'']"
    by simp_all
  with manager_failed show ?thesis by simp
next
  case (controller_failed mgr w1 err w2)
  from controller_failed(1,2)
  have "New (traced K) cliCfg opCfg (w, [])
          = ((None, Some (Errorf_w ''failed to create contour controller: '' err)),
             (w2, [''NewManager'', ''controller.New'']))"
    by (simp add: New_def traced_simps)
  with traced_run have "r = None"
    "e = Some (Errorf_w ''failed to create contour controller: '' err)"
    "w' = w2" "calls = [''NewManager'', ''controller.New'']"
    by simp_all
  with controller_failed show ?thesis by simp
next
  case (discovery_failed mgr w1 w2 err w3)
  from discovery_failed(1,2,3)
  have "New (traced K) cliCfg opCfg (w, [])
          = ((None, Some err),
             (w3, [''NewManager'', ''controller.New'', ''NewDiscoveryRESTMapper'']))"
    by (simp add: New_def traced_simps)
  with traced_run have res: "r = None" "e = Some err" "w' = w3"
    "calls = [''NewManager'', ''controller.New'', ''NewDiscoveryRESTMapper'']"
    by simp_all
  have "\<exists>mgr w1 w2 res.
          NewManager K cliCfg (mgrOpts K opCfg) w = (Inr mgr, w1)
          \<and> controller_New K mgr (ctrlCfg opCfg) w1 = (None, w2)
          \<and> NewDiscoveryRESTMapper K cliCfg w2 = (res, w')
          \<and> (\<forall>err. res = Inl err \<longrightarrow>
                r = None \<and> (\<exists>e'. e = Some e' \<and> err \<in> set (chain e')))"
    using discovery_failed(1,2,3) res by (intro exI [of _ mgr] exI [of _ w1] exI [of _ w2]
        exI [of _ "Inl err"]) (simp add: chain_self)
  with discovery_failed res show ?thesis by simp
next
  case (created mgr w1 w2 restMapper w3)
  from created(1,2,3)
  have "New (traced K) cliCfg opCfg (w, [])
          = ((Some \<lparr>client = \<lparr>Client = GetClient K mgr, RESTMapper = restMapper\<rparr>,
                    manager = mgr, log = WithName Log operatorName, config = opCfg\<rparr>,
              None),
             (w3, [''NewManager'', ''controller.New'', ''NewDiscoveryRESTMapper'']))"
    by (simp add: New_def traced_simps)
  with traced_run have res: "e = None" "w' = w3"
    "r = Some \<lparr>client = \<lparr>Client = GetClient K mgr, RESTMapper = restMapper\<rparr>,
               manager = mgr, log = WithName Log operatorName, config = opCfg\<rparr>"
    "calls = [''NewManager'', ''controller.New'', ''NewDiscoveryRESTMapper'']"
    by simp_all
  have "\<exists>mgr w1 w2 res.
          NewManager K cliCfg (mgrOpts K opCfg) w = (Inr mgr, w1)
          \<and> controller_New K mgr (ctrlCfg opCfg) w1 = (None, w2)
          \<and> NewDiscoveryRESTMapper K cliCfg w2 = (res, w')
          \<and> (\<forall>err. res = Inl err \<longrightarrow>
                r = None \<and> (\<exists>e'. e = Some e' \<and> err \<in> set (chain e')))"
    using created(1,2,3) res by (intro exI [of _ mgr] exI [of _ w1] exI [of _ w2]
        exI [of _ "Inr restMapper"]) simp
  with created res show ?thesis by simp
qed

theorem New_discovery_is_last_witness:
  "New (traced (recording (Inr 1) None (Inl (errorString ''discovery timed out''))))
       cliCfg0 opCfg0 ([], [])
     = ((None, Some (errorString ''discovery timed out'')),
        ([''NewManager'', ''controller.New'', ''NewDiscoveryRESTMapper''],
         [''NewManager'', ''controller.New'', ''NewDiscoveryRESTMapper'']))
   \<and> ''NewDiscoveryRESTMapper''
       \<in> set [''NewManager'', ''controller.New'', ''NewDiscoveryRESTMapper'']
   \<and> New (recording (Inr 1) None (Inl (errorString ''discovery timed out''))) cliCfg0 opCfg0 []
     = ((None, Some (errorString ''discovery timed out'')),
        [''NewManager'', ''controller.New'', ''NewDiscoveryRESTMapper''])
   \<and> errorString ''discovery timed out'' \<in> set (chain (errorString ''discovery timed out''))"
proof -
  let ?K = "recording (Inr 1) None (Inl (errorString ''discovery timed out''))"
  have run: "New (traced ?K) cliCfg0 opCfg0 ([], [])
     = ((None, Some (errorString ''discovery timed out'')),
        ([''NewManager'', ''controller.New'', ''NewDiscoveryRESTMapper''],
         [''NewManager'', ''controller.New'', ''NewDiscoveryRESTMapper'']))"
    by (simp add: New_def traced_simps recording_simps)
  have disc: "''NewDiscoveryRESTMapper''
       \<in> set [''NewManager'', ''controller.New'', ''NewDiscoveryRESTMapper'']"
    by simp
  from New_discovery_is_last [OF run]
  have plain: "New ?K cliCfg0 opCfg0 []
     = ((None, Some (errorString ''discovery timed out'')),
        [''NewManager'', ''controller.New'', ''NewDiscoveryRESTMapper''])"
    by (elim conjE)
  have cause: "errorString ''discovery timed out''
                 \<in> set (chain (errorString ''discovery timed out''))"
    by simp
  from run disc plain cause show ?thesis by (intro conjI)
qed

subsection \<open>Types read past the cache\<close>

text \<open>
  C10. When \<open>New\<close> succeeds, the manager of the operator it returns is the one
  \<open>NewManager\<close> made from options whose \<open>ClientDisableCacheFor\<close> holds exactly
  Contour, GatewayClass, Gateway and CustomResourceDefinition, each once.
\<close>

theorem New_nonCached:
  assumes "fst (New K cliCfg opCfg w) = (Some op, None)"
  shows "(\<exists>w1. NewManager K cliCfg (mgrOpts K opCfg) w = (Inr (manager op), w1))
         \<and> set (ClientDisableCacheFor (mgrOpts K opCfg))
             = {Contour, GatewayClass, Gateway, CustomResourceDefinition}
         \<and> distinct (ClientDisableCacheFor (mgrOpts K opCfg))
         \<and> length (ClientDisableCacheFor (mgrOpts K opCfg)) = 4"
proof -
  have "\<exists>w1. NewManager K cliCfg (mgrOpts K opCfg) w = (Inr (manager op), w1)"
    using assms by (cases rule: New_cases [of K cliCfg opCfg w]) auto
  moreover have "ClientDisableCacheFor (mgrOpts K opCfg)
                 = [Contour, GatewayClass, Gateway, CustomResourceDefinition]"
    by (simp add: mgrOpts_def nonCached_def)
  ultimately show ?thesis by auto
qed

theorem New_nonCached_witness:
  "fst (New (recording (Inr 1) None (Inr 2)) cliCfg0 opCfg0 [])
     = (Some \<lparr>client = \<lparr>Client = 1, RESTMapper = 2\<rparr>, manager = 1,
              log = [''contour_operator''], config = opCfg0\<rparr>, None)
   \<and> NewManager (recording (Inr 1) None (Inr 2)) cliCfg0
       (mgrOpts (recording (Inr 1) None (Inr 2)) opCfg0) []
     = (Inr 1, [''NewManager''])
   \<and> set (ClientDisableCacheFor (mgrOpts (recording (Inr 1) None (Inr 2)) opCfg0))
     = {Contour, GatewayClass, Gateway, CustomResourceDefinition}"
proof -
  let ?K = "recording (Inr 1) None (Inr 2)"
  have ok: "fst (New ?K cliCfg0 opCfg0 [])
     = (Some \<lparr>client = \<lparr>Client = 1, RESTMapper = 2\<rparr>, manager = 1,
              log = [''contour_operator''], config = opCfg0\<rparr>, None)"
    by (simp add: New_def recording_simps WithName_def Log_def operatorName_def)
  have m: "NewManager ?K cliCfg0 (mgrOpts ?K opCfg0) [] = (Inr 1, [''NewManager''])"
    by (simp add: recording_simps)
  from New_nonCached [OF ok] ok m show ?thesis by simp
qed

section \<open>Properties of \<open>Start\<close>\<close>

subsection \<open>Steps and reachable states\<close>

text \<open>The steps of \<open>Start\<close> itself, whose channel has no buffer.\<close>

lemma Start_run_Nil: "Start_run [] s = Some s"
  by (simp add: Start_run_def)

lemma Start_run_Cons:
  "Start_run (ev # evs) s
     = (case Start_step ev s of None \<Rightarrow> None | Some s' \<Rightarrow> Start_run evs s')"
  by (simp add: Start_run_def Start_step_def split: option.splits)

lemma Start_run_snoc:
  "Start_run (evs @ [ev]) s
     = (case Start_run evs s of None \<Rightarrow> None | Some s' \<Rightarrow> Start_step ev s')"
  by (induction evs arbitrary: s) (simp_all add: Start_run_Nil Start_run_Cons split: option.splits)

lemma Start_run_snocE:
  assumes "Start_run (evs @ [ev]) s = Some t"
  obtains s' where "Start_run evs s = Some s'" and "Start_step ev s' = Some t"
  using assms by (simp add: Start_run_snoc split: option.splits)

lemma Start_run_ConsE:
  assumes "Start_run (ev # evs) s = Some t"
  obtains s' where "Start_step ev s = Some s'" and "Start_run evs s' = Some t"
  using assms by (simp add: Start_run_Cons split: option.splits)

lemma step_GoFunc:
  "Start_step GoFunc s = Some t \<Longrightarrow>
     caller s = AtEntry \<and> ctx_Done t = ctx_Done s \<and> errChan t = errChan s
     \<and> caller t = AtSelect \<and> goroutine t = InManagerStart"
  by (cases "caller s = AtEntry") (auto simp: Start_step_def)

lemma step_CtxCancel:
  "Start_step CtxCancel s = Some t \<Longrightarrow>
     ctx_Done t \<and> errChan t = errChan s \<and> caller t = caller s \<and> goroutine t = goroutine s"
  by (auto simp: Start_step_def)

lemma step_ManagerStartReturns:
  "Start_step (ManagerStartReturns v) s = Some t \<Longrightarrow>
     goroutine s = InManagerStart \<and> ctx_Done t = ctx_Done s \<and> errChan t = errChan s
     \<and> caller t = caller s \<and> goroutine t = SendBlocked v"
  by (cases "goroutine s = InManagerStart") (auto simp: Start_step_def)

lemma step_SendBuffered: "Start_step SendBuffered s = None"
  by (cases "goroutine s") (simp_all add: Start_step_def errChan_cap_def)

lemma step_CaseCtxDone:
  "Start_step CaseCtxDone s = Some t \<Longrightarrow>
     caller s = AtSelect \<and> ctx_Done s \<and> ctx_Done t \<and> errChan t = errChan s
     \<and> caller t = Returned None \<and> goroutine t = goroutine s"
  by (cases "caller s = AtSelect \<and> ctx_Done s") (auto simp: Start_step_def)

lemma step_CaseErrChan:
  "Start_step CaseErrChan s = Some t \<Longrightarrow> errChan s = [] \<Longrightarrow>
     caller s = AtSelect \<and> ctx_Done t = ctx_Done s \<and> errChan t = []
     \<and> (\<exists>v. goroutine s = SendBlocked v \<and> caller t = Returned v) \<and> goroutine t = Ended"
  by (cases "caller s = AtSelect"; cases "goroutine s") (auto simp: Start_step_def)

text \<open>
  What holds in every state a run of \<open>Start\<close> reaches: the buffer is empty, \<open>ctx\<close>
  is cancelled exactly when a cancellation happened, and the positions of the two
  goroutines fit each other and the values the manager has returned so far.
\<close>

lemma Start_reachable:
  "Start_run evs Start_init = Some s \<Longrightarrow>
     errChan s = []
   \<and> (ctx_Done s \<longleftrightarrow> CtxCancel \<in> set evs)
   \<and> (goroutine s = NotSpawned \<longrightarrow>
         caller s = AtEntry \<and> (\<forall>u. ManagerStartReturns u \<notin> set evs))
   \<and> (goroutine s = InManagerStart \<longrightarrow>
         (caller s = AtSelect \<or> caller s = Returned None \<and> ctx_Done s)
         \<and> (\<forall>u. ManagerStartReturns u \<notin> set evs))
   \<and> (\<forall>v. goroutine s = SendBlocked v \<longrightarrow>
         (caller s = AtSelect \<or> caller s = Returned None \<and> ctx_Done s)
         \<and> (\<forall>u. ManagerStartReturns u \<in> set evs \<longleftrightarrow> u = v))
   \<and> (goroutine s = Ended \<longrightarrow>
         (\<exists>v. caller s = Returned v \<and> (\<forall>u. ManagerStartReturns u \<in> set evs \<longleftrightarrow> u = v)))"
proof (induction evs arbitrary: s rule: rev_induct)
  case Nil
  then show ?case by (auto simp: Start_init_def Start_run_Nil)
next
  case (snoc ev evs)
  from snoc.prems obtain s0 where run: "Start_run evs Start_init = Some s0"
    and st: "Start_step ev s0 = Some s"
    by (rule Start_run_snocE)
  note ih = snoc.IH [OF run]
  from ih have empty: "errChan s0 = []" by simp
  show ?case
  proof (cases ev)
    case GoFunc
    with st have "Start_step GoFunc s0 = Some s" by simp
    from step_GoFunc [OF this] ih GoFunc show ?thesis by (cases "goroutine s0") auto
  next
    case CtxCancel
    with st have "Start_step CtxCancel s0 = Some s" by simp
    from step_CtxCancel [OF this] ih CtxCancel show ?thesis by (cases "goroutine s0") auto
  next
    case (ManagerStartReturns v)
    with st have "Start_step (ManagerStartReturns v) s0 = Some s" by simp
    from step_ManagerStartReturns [OF this] ih ManagerStartReturns show ?thesis
      by (cases "goroutine s0") auto
  next
    case SendBuffered
    with st show ?thesis by (simp add: step_SendBuffered)
  next
    case CaseCtxDone
    with st have "Start_step CaseCtxDone s0 = Some s" by simp
    from step_CaseCtxDone [OF this] ih CaseCtxDone show ?thesis by (cases "goroutine s0") auto
  next
    case CaseErrChan
    with st have "Start_step CaseErrChan s0 = Some s" by simp
    from step_CaseErrChan [OF this empty] ih CaseErrChan show ?thesis
      by (cases "goroutine s0") auto
  qed
qed

text \<open>Once \<open>Start\<close> has returned, its value stays, and a send not completed never is.\<close>

lemma Start_step_returned:
  assumes "Start_step ev s = Some t" and "caller s = Returned r"
  shows "caller t = Returned r \<and> (goroutine s \<noteq> Ended \<longrightarrow> goroutine t \<noteq> Ended)"
proof (cases ev)
  case GoFunc
  with assms show ?thesis by (simp add: Start_step_def split: if_splits)
next
  case CtxCancel
  with assms step_CtxCancel [of s t] show ?thesis by simp
next
  case (ManagerStartReturns v)
  with assms step_ManagerStartReturns [of v s t] show ?thesis by simp
next
  case SendBuffered
  with assms show ?thesis by (simp add: step_SendBuffered)
next
  case CaseCtxDone
  with assms show ?thesis by (simp add: Start_step_def split: if_splits)
next
  case CaseErrChan
  with assms show ?thesis by (simp add: Start_step_def split: if_splits)
qed

lemma Start_returned_stable:
  "Start_run rest s = Some s' \<Longrightarrow> caller s = Returned r \<Longrightarrow>
     caller s' = Returned r \<and> (goroutine s \<noteq> Ended \<longrightarrow> goroutine s' \<noteq> Ended)"
proof (induction rest arbitrary: s)
  case Nil
  then show ?case by (simp add: Start_run_Nil)
next
  case (Cons ev rest)
  from Cons.prems(1) obtain t where st: "Start_step ev s = Some t"
    and run: "Start_run rest t = Some s'"
    by (rule Start_run_ConsE)
  from Start_step_returned [OF st Cons.prems(2)]
  have t: "caller t = Returned r" and g: "goroutine s \<noteq> Ended \<longrightarrow> goroutine t \<noteq> Ended"
    by simp_all
  from Cons.IH [OF run t] g show ?case by blast
qed

text \<open>A receive from \<open>errChan\<close> happened exactly when the goroutine has ended.\<close>

lemma Start_receives_once:
  "Start_run evs Start_init = Some s \<Longrightarrow>
     count_list evs CaseErrChan = (if goroutine s = Ended then 1 else 0)"
proof (induction evs arbitrary: s rule: rev_induct)
  case Nil
  then show ?case by (auto simp: Start_init_def Start_run_Nil)
next
  case (snoc ev evs)
  from snoc.prems obtain s0 where run: "Start_run evs Start_init = Some s0"
    and st: "Start_step ev s0 = Some s"
    by (rule Start_run_snocE)
  note ih = snoc.IH [OF run]
  note inv = Start_reachable [OF run]
  from inv have empty: "errChan s0 = []" by simp
  show ?case
  proof (cases ev)
    case GoFunc
    with st have "Start_step GoFunc s0 = Some s" by simp
    from step_GoFunc [OF this] inv ih GoFunc show ?thesis
      by (cases "goroutine s0") auto
  next
    case CtxCancel
    with st have "Start_step CtxCancel s0 = Some s" by simp
    from step_CtxCancel [OF this] ih CtxCancel show ?thesis by auto
  next
    case (ManagerStartReturns v)
    with st have "Start_step (ManagerStartReturns v) s0 = Some s" by simp
    from step_ManagerStartReturns [OF this] ih ManagerStartReturns show ?thesis by auto
  next
    case SendBuffered
    with st show ?thesis by (simp add: step_SendBuffered)
  next
    case CaseCtxDone
    with st have "Start_step CaseCtxDone s0 = Some s" by simp
    from step_CaseCtxDone [OF this] ih CaseCtxDone show ?thesis by auto
  next
    case CaseErrChan
    with st have "Start_step CaseErrChan s0 = Some s" by simp
    from step_CaseErrChan [OF this empty] ih CaseErrChan show ?thesis by auto
  qed
qed

text \<open>What the two cases of the \<open>select\<close> do in a state with an empty buffer.\<close>

lemma select_CaseCtxDone:
  "caller s = AtSelect \<Longrightarrow>
     Start_step CaseCtxDone s
       = (if ctx_Done s then Some (s\<lparr>caller := Returned None\<rparr>) else None)"
  by (simp add: Start_step_def)

lemma select_CaseErrChan:
  "caller s = AtSelect \<Longrightarrow> errChan s = [] \<Longrightarrow>
     Start_step CaseErrChan s
       = (case goroutine s of
            SendBlocked v \<Rightarrow> Some (s\<lparr>caller := Returned v, goroutine := Ended\<rparr>)
          | _ \<Rightarrow> None)"
  by (simp add: Start_step_def)

subsection \<open>The runtime's error\<close>

text \<open>
  When both cases of the \<open>select\<close> are ready, either can be taken: with \<open>ctx\<close>
  cancelled and the goroutine blocked in its send, \<open>Start\<close> can return nil and can
  return the manager's value.
\<close>

lemma Start_select_both_ready:
  "Start_step CaseCtxDone
       \<lparr>ctx_Done = True, errChan = [], caller = AtSelect, goroutine = SendBlocked v\<rparr>
     = Some \<lparr>ctx_Done = True, errChan = [], caller = Returned None,
             goroutine = SendBlocked v\<rparr>
   \<and> Start_step CaseErrChan
       \<lparr>ctx_Done = True, errChan = [], caller = AtSelect, goroutine = SendBlocked v\<rparr>
     = Some \<lparr>ctx_Done = True, errChan = [], caller = Returned v, goroutine = Ended\<rparr>"
  by (simp add: Start_step_def)

text \<open>
  C2, as stated, fails. The manager returns the error "cache sync failed", then
  \<open>ctx\<close> is cancelled, then the \<open>select\<close> is taken: both cases are ready, the
  case \<open><-ctx.Done()\<close> can be the one taken, and \<open>Start\<close> returns nil although the
  error was produced before the cancellation. The goroutine stays blocked in its send.
\<close>

theorem Start_error_then_cancel_returns_nil:
  "Start_run [GoFunc, ManagerStartReturns (Some (errorString ''cache sync failed'')),
              CtxCancel, CaseCtxDone] Start_init
     = Some \<lparr>ctx_Done = True, errChan = [], caller = Returned None,
             goroutine = SendBlocked (Some (errorString ''cache sync failed''))\<rparr>"
  by (simp add: Start_run_Cons Start_run_Nil Start_step_def Start_init_def)

text \<open>
  C2, amended. Take any run of \<open>Start\<close> in which the manager's \<open>Start\<close> has returned
  the error \<open>e\<close>. If \<open>ctx\<close> has not been cancelled so far, then \<open>Start\<close> has
  returned exactly \<open>e\<close> (the value the manager returned, not a wrapper of it), or it
  is in its \<open>select\<close>, where the case \<open><-ctx.Done()\<close> cannot be taken and the case
  \<open>err := <-errChan\<close> can, and returns exactly \<open>e\<close>. Whether or not \<open>ctx\<close> has been
  cancelled, a value that \<open>Start\<close> has returned is \<open>e\<close> itself or, only after a
  cancellation, nil. Once \<open>e\<close> is returned, nothing that happens later, a
  cancellation included, changes it.
\<close>

theorem Start_returns_runtime_error:
  assumes run: "Start_run evs Start_init = Some s"
    and compl: "ManagerStartReturns (Some e) \<in> set evs"
  shows "(CtxCancel \<notin> set evs \<longrightarrow>
            caller s = Returned (Some e)
            \<or> (caller s = AtSelect \<and> Start_step CaseCtxDone s = None
               \<and> Start_step CaseErrChan s
                   = Some (s\<lparr>caller := Returned (Some e), goroutine := Ended\<rparr>)))
         \<and> (\<forall>r. caller s = Returned r \<longrightarrow> r = Some e \<or> r = None \<and> CtxCancel \<in> set evs)
         \<and> (\<forall>rest s'. caller s = Returned (Some e) \<and> Start_run rest s = Some s'
               \<longrightarrow> caller s' = Returned (Some e))"
proof -
  note inv = Start_reachable [OF run]
  from inv have empty: "errChan s = []" by simp
  have first: "CtxCancel \<notin> set evs \<longrightarrow>
            caller s = Returned (Some e)
            \<or> (caller s = AtSelect \<and> Start_step CaseCtxDone s = None
               \<and> Start_step CaseErrChan s
                   = Some (s\<lparr>caller := Returned (Some e), goroutine := Ended\<rparr>))"
  proof
    assume "CtxCancel \<notin> set evs"
    with inv have nd: "\<not> ctx_Done s" by simp
    show "caller s = Returned (Some e)
            \<or> (caller s = AtSelect \<and> Start_step CaseCtxDone s = None
               \<and> Start_step CaseErrChan s
                   = Some (s\<lparr>caller := Returned (Some e), goroutine := Ended\<rparr>))"
    proof (cases "goroutine s")
      case NotSpawned
      with inv compl show ?thesis by auto
    next
      case InManagerStart
      with inv compl show ?thesis by auto
    next
      case (SendBlocked v)
      with inv compl have v: "v = Some e" by auto
      from inv SendBlocked nd have sel: "caller s = AtSelect" by auto
      from select_CaseCtxDone [OF sel] nd have "Start_step CaseCtxDone s = None" by simp
      moreover from select_CaseErrChan [OF sel empty] SendBlocked v
      have "Start_step CaseErrChan s
              = Some (s\<lparr>caller := Returned (Some e), goroutine := Ended\<rparr>)" by simp
      ultimately show ?thesis using sel by simp
    next
      case Ended
      with inv compl show ?thesis by auto
    qed
  qed
  have val: "\<forall>r. caller s = Returned r \<longrightarrow> r = Some e \<or> r = None \<and> CtxCancel \<in> set evs"
  proof (intro allI impI)
    fix r
    assume r: "caller s = Returned r"
    show "r = Some e \<or> r = None \<and> CtxCancel \<in> set evs"
    proof (cases "goroutine s")
      case NotSpawned
      with inv compl show ?thesis by auto
    next
      case InManagerStart
      with inv compl show ?thesis by auto
    next
      case (SendBlocked v)
      with inv r show ?thesis by auto
    next
      case Ended
      with inv compl r show ?thesis by auto
    qed
  qed
  have later: "\<forall>rest s'. caller s = Returned (Some e) \<and> Start_run rest s = Some s'
               \<longrightarrow> caller s' = Returned (Some e)"
  proof (intro allI impI, elim conjE)
    fix rest s'
    assume r: "caller s = Returned (Some e)" and rr: "Start_run rest s = Some s'"
    from Start_returned_stable [OF rr r]
    show "caller s' = Returned (Some e)" by simp
  qed
  from first val later show ?thesis by (intro conjI)
qed

theorem Start_returns_runtime_error_witness:
  "Start_run [GoFunc, ManagerStartReturns (Some (errorString ''cache sync failed'')), CaseErrChan]
       Start_init
     = Some \<lparr>ctx_Done = False, errChan = [],
             caller = Returned (Some (errorString ''cache sync failed'')), goroutine = Ended\<rparr>
   \<and> ManagerStartReturns (Some (errorString ''cache sync failed''))
       \<in> set [GoFunc, ManagerStartReturns (Some (errorString ''cache sync failed'')), CaseErrChan]
   \<and> CtxCancel
       \<notin> set [GoFunc, ManagerStartReturns (Some (errorString ''cache sync failed'')), CaseErrChan]
   \<and> Start_run [CtxCancel]
         \<lparr>ctx_Done = False, errChan = [],
          caller = Returned (Some (errorString ''cache sync failed'')), goroutine = Ended\<rparr>
     = Some \<lparr>ctx_Done = True, errChan = [],
             caller = Returned (Some (errorString ''cache sync failed'')), goroutine = Ended\<rparr>
   \<and> caller \<lparr>ctx_Done = True, errChan = [],
              caller = Returned (Some (errorString ''cache sync failed'')), goroutine = Ended\<rparr>
     = Returned (Some (errorString ''cache sync failed''))"
proof -
  let ?e = "errorString ''cache sync failed''"
  let ?evs = "[GoFunc, ManagerStartReturns (Some ?e), CaseErrChan]"
  let ?s = "\<lparr>ctx_Done = False, errChan = [], caller = Returned (Some ?e), goroutine = Ended\<rparr>"
  let ?s' = "\<lparr>ctx_Done = True, errChan = [], caller = Returned (Some ?e), goroutine = Ended\<rparr>"
  have run: "Start_run ?evs Start_init = Some ?s"
    by (simp add: Start_run_Cons Start_run_Nil Start_step_def Start_init_def)
  have compl: "ManagerStartReturns (Some ?e) \<in> set ?evs"
    by simp
  have nocancel: "CtxCancel \<notin> set ?evs"
    by simp
  have later: "Start_run [CtxCancel] ?s = Some ?s'"
    by (simp add: Start_run_Cons Start_run_Nil Start_step_def)
  from Start_returns_runtime_error [OF run compl]
  have "caller ?s = Returned (Some ?e) \<and> Start_run [CtxCancel] ?s = Some ?s'
        \<longrightarrow> caller ?s' = Returned (Some ?e)"
    by blast
  with later have "caller ?s' = Returned (Some ?e)" by simp
  with run compl nocancel later show ?thesis by (intro conjI)
qed

subsection \<open>Cancellation\<close>

text \<open>
  C3, as stated, fails. \<open>ctx\<close> is cancelled, then the manager returns the error
  "shutdown timed out", then the \<open>select\<close> is taken: both cases are ready, the case
  \<open>err := <-errChan\<close> can be the one taken, and \<open>Start\<close> returns the error and has
  consumed the channel although the cancellation came first.
\<close>

theorem Start_cancel_then_error_returns_error:
  "Start_run [GoFunc, CtxCancel, ManagerStartReturns (Some (errorString ''shutdown timed out'')),
              CaseErrChan] Start_init
     = Some \<lparr>ctx_Done = True, errChan = [],
             caller = Returned (Some (errorString ''shutdown timed out'')), goroutine = Ended\<rparr>"
  by (simp add: Start_run_Cons Start_run_Nil Start_step_def Start_init_def)

text \<open>
  C3, amended. Take any run in which \<open>ctx\<close> has been cancelled and the caller is past
  the \<open>go\<close> statement. If the manager's \<open>Start\<close> has not returned so far, then the
  manager is still running, and \<open>Start\<close> has returned nil or is in its \<open>select\<close>,
  where only the case \<open><-ctx.Done()\<close> can be taken, at once, and returns nil. When
  \<open>Start\<close> has left by that case, whatever happens next, the value returned stays nil
  and the goroutine never gets past its send: nothing receives from \<open>errChan\<close>, so
  \<open>Start\<close> has not waited for the manager and never learns its completion value. A
  value that \<open>Start\<close> has returned is nil or, when the manager returned before the
  \<open>select\<close> was taken, the manager's value received from \<open>errChan\<close>.
\<close>

theorem Start_cancelled_first:
  assumes run: "Start_run evs Start_init = Some s"
    and cancel: "CtxCancel \<in> set evs"
    and started: "caller s \<noteq> AtEntry"
  shows "((\<forall>v. ManagerStartReturns v \<notin> set evs) \<longrightarrow>
            goroutine s = InManagerStart
            \<and> (caller s = Returned None
               \<or> (caller s = AtSelect \<and> Start_step CaseErrChan s = None
                  \<and> Start_step CaseCtxDone s = Some (s\<lparr>caller := Returned None\<rparr>))))
         \<and> (\<forall>rest s'. caller s = Returned None \<and> goroutine s \<noteq> Ended
                 \<and> Start_run rest s = Some s'
               \<longrightarrow> caller s' = Returned None \<and> goroutine s' \<noteq> Ended)
         \<and> (\<forall>r. caller s = Returned r \<longrightarrow>
               r = None \<or> ManagerStartReturns r \<in> set evs \<and> goroutine s = Ended)"
proof -
  note inv = Start_reachable [OF run]
  from inv have empty: "errChan s = []" by simp
  from inv cancel have d: "ctx_Done s" by simp
  have first: "(\<forall>v. ManagerStartReturns v \<notin> set evs) \<longrightarrow>
            goroutine s = InManagerStart
            \<and> (caller s = Returned None
               \<or> (caller s = AtSelect \<and> Start_step CaseErrChan s = None
                  \<and> Start_step CaseCtxDone s = Some (s\<lparr>caller := Returned None\<rparr>)))"
  proof
    assume nocompl: "\<forall>v. ManagerStartReturns v \<notin> set evs"
    have g: "goroutine s = InManagerStart"
    proof (cases "goroutine s")
      case NotSpawned
      with inv started show ?thesis by auto
    next
      case InManagerStart
      then show ?thesis .
    next
      case (SendBlocked v)
      with inv nocompl show ?thesis by auto
    next
      case Ended
      with inv nocompl show ?thesis by auto
    qed
    from inv g have c: "caller s = AtSelect \<or> caller s = Returned None" by auto
    have "caller s = Returned None
            \<or> (caller s = AtSelect \<and> Start_step CaseErrChan s = None
               \<and> Start_step CaseCtxDone s = Some (s\<lparr>caller := Returned None\<rparr>))"
    proof (cases "caller s = AtSelect")
      case True
      from select_CaseErrChan [OF True empty] g
      have "Start_step CaseErrChan s = None" by simp
      moreover from select_CaseCtxDone [OF True] d
      have "Start_step CaseCtxDone s = Some (s\<lparr>caller := Returned None\<rparr>)" by simp
      ultimately show ?thesis using True by simp
    next
      case False
      with c show ?thesis by simp
    qed
    with g show "goroutine s = InManagerStart
            \<and> (caller s = Returned None
               \<or> (caller s = AtSelect \<and> Start_step CaseErrChan s = None
                  \<and> Start_step CaseCtxDone s = Some (s\<lparr>caller := Returned None\<rparr>)))"
      by (intro conjI)
  qed
  have later: "\<forall>rest s'. caller s = Returned None \<and> goroutine s \<noteq> Ended
                 \<and> Start_run rest s = Some s'
               \<longrightarrow> caller s' = Returned None \<and> goroutine s' \<noteq> Ended"
  proof (intro allI impI, elim conjE)
    fix rest s'
    assume r: "caller s = Returned None" and g: "goroutine s \<noteq> Ended"
      and rr: "Start_run rest s = Some s'"
    from Start_returned_stable [OF rr r] g
    show "caller s' = Returned None \<and> goroutine s' \<noteq> Ended" by simp
  qed
  have val: "\<forall>r. caller s = Returned r \<longrightarrow>
               r = None \<or> ManagerStartReturns r \<in> set evs \<and> goroutine s = Ended"
  proof (intro allI impI)
    fix r
    assume r: "caller s = Returned r"
    show "r = None \<or> ManagerStartReturns r \<in> set evs \<and> goroutine s = Ended"
    proof (cases "goroutine s")
      case NotSpawned
      with inv r show ?thesis by auto
    next
      case InManagerStart
      with inv r show ?thesis by auto
    next
      case (SendBlocked v)
      with inv r show ?thesis by auto
    next
      case Ended
      with inv r show ?thesis by auto
    qed
  qed
  from first later val show ?thesis by (intro conjI)
qed

theorem Start_cancelled_first_witness:
  "Start_run [GoFunc, CtxCancel, CaseCtxDone] Start_init
     = Some \<lparr>ctx_Done = True, errChan = [], caller = Returned None,
             goroutine = (InManagerStart :: error goroutine_pc)\<rparr>
   \<and> CtxCancel \<in> set [GoFunc, CtxCancel, CaseCtxDone :: error event]
   \<and> (\<forall>v. ManagerStartReturns v \<notin> set [GoFunc, CtxCancel, CaseCtxDone :: error event])
   \<and> caller \<lparr>ctx_Done = True, errChan = [], caller = Returned None,
              goroutine = (InManagerStart :: error goroutine_pc)\<rparr> \<noteq> AtEntry
   \<and> Start_run [ManagerStartReturns None]
         \<lparr>ctx_Done = True, errChan = [], caller = Returned None,
          goroutine = (InManagerStart :: error goroutine_pc)\<rparr>
     = Some \<lparr>ctx_Done = True, errChan = [], caller = Returned None,
             goroutine = SendBlocked None\<rparr>
   \<and> goroutine \<lparr>ctx_Done = True, errChan = [], caller = Returned None,
                 goroutine = (SendBlocked None :: error goroutine_pc)\<rparr>
     \<noteq> Ended"
proof -
  let ?evs = "[GoFunc, CtxCancel, CaseCtxDone :: error event]"
  let ?s = "\<lparr>ctx_Done = True, errChan = [], caller = Returned None,
             goroutine = (InManagerStart :: error goroutine_pc)\<rparr>"
  let ?s' = "\<lparr>ctx_Done = True, errChan = [], caller = Returned None,
              goroutine = (SendBlocked None :: error goroutine_pc)\<rparr>"
  have run: "Start_run ?evs Start_init = Some ?s"
    by (simp add: Start_run_Cons Start_run_Nil Start_step_def Start_init_def)
  have cancel: "CtxCancel \<in> set ?evs"
    by simp
  have nocompl: "\<forall>v. ManagerStartReturns v \<notin> set ?evs"
    by simp
  have started: "caller ?s \<noteq> AtEntry"
    by simp
  have later: "Start_run [ManagerStartReturns None] ?s = Some ?s'"
    by (simp add: Start_run_Cons Start_run_Nil Start_step_def)
  from Start_cancelled_first [OF run cancel started]
  have "caller ?s = Returned None \<and> goroutine ?s \<noteq> Ended
          \<and> Start_run [ManagerStartReturns None] ?s = Some ?s'
        \<longrightarrow> caller ?s' = Returned None \<and> goroutine ?s' \<noteq> Ended"
    by blast
  with later have "goroutine ?s' \<noteq> Ended" by simp
  with run cancel nocompl started later show ?thesis by (intro conjI)
qed

subsection \<open>A clean exit of the manager\<close>

text \<open>
  C8. Take any run in which the manager's \<open>Start\<close> has returned nil, whether or not
  \<open>ctx\<close> has been cancelled. Then \<open>Start\<close> has returned nil, or it is in its
  \<open>select\<close>, where the case \<open>err := <-errChan\<close> can be taken and returns nil, and
  the case \<open><-ctx.Done()\<close> can be taken only after a cancellation and returns nil
  too. What the caller of \<open>Start\<close> sees after such a run is what it sees after any run
  that cancellation ended before the manager returned: the same returned value.
\<close>

theorem Start_clean_exit_is_nil:
  fixes s :: "'e start_state"
  assumes run: "Start_run evs Start_init = Some s"
    and compl: "ManagerStartReturns None \<in> set evs"
  shows "(caller s = Returned None
          \<or> (caller s = AtSelect
             \<and> Start_step CaseErrChan s = Some (s\<lparr>caller := Returned None, goroutine := Ended\<rparr>)
             \<and> Start_step CaseCtxDone s
                 = (if CtxCancel \<in> set evs then Some (s\<lparr>caller := Returned None\<rparr>) else None)))
         \<and> (\<forall>evs' (s' :: 'e start_state). Start_run evs' Start_init = Some s' \<and> CtxCancel \<in> set evs'
               \<and> (\<forall>v. ManagerStartReturns v \<notin> set evs')
               \<and> (\<exists>r. caller s = Returned r) \<and> (\<exists>r'. caller s' = Returned r')
               \<longrightarrow> caller s' = caller s)"
proof -
  note inv = Start_reachable [OF run]
  from inv have empty: "errChan s = []" by simp
  from inv have d: "ctx_Done s \<longleftrightarrow> CtxCancel \<in> set evs" by simp
  have sel: "caller s = Returned None
          \<or> (caller s = AtSelect
             \<and> Start_step CaseErrChan s = Some (s\<lparr>caller := Returned None, goroutine := Ended\<rparr>)
             \<and> Start_step CaseCtxDone s
                 = (if CtxCancel \<in> set evs then Some (s\<lparr>caller := Returned None\<rparr>) else None))"
  proof (cases "goroutine s")
    case NotSpawned
    with inv compl show ?thesis by auto
  next
    case InManagerStart
    with inv compl show ?thesis by auto
  next
    case (SendBlocked v)
    with inv compl have v: "v = None" by auto
    from inv SendBlocked have c: "caller s = AtSelect \<or> caller s = Returned None" by auto
    show ?thesis
    proof (cases "caller s = AtSelect")
      case True
      from select_CaseErrChan [OF True empty] SendBlocked v
      have "Start_step CaseErrChan s = Some (s\<lparr>caller := Returned None, goroutine := Ended\<rparr>)"
        by simp
      moreover from select_CaseCtxDone [OF True] d
      have "Start_step CaseCtxDone s
              = (if CtxCancel \<in> set evs then Some (s\<lparr>caller := Returned None\<rparr>) else None)"
        by simp
      ultimately show ?thesis using True by simp
    next
      case False
      with c show ?thesis by simp
    qed
  next
    case Ended
    with inv compl show ?thesis by auto
  qed
  have same: "\<forall>evs' (s' :: 'e start_state). Start_run evs' Start_init = Some s' \<and> CtxCancel \<in> set evs'
               \<and> (\<forall>v. ManagerStartReturns v \<notin> set evs')
               \<and> (\<exists>r. caller s = Returned r) \<and> (\<exists>r'. caller s' = Returned r')
               \<longrightarrow> caller s' = caller s"
  proof (intro allI impI, elim conjE exE)
    fix evs' and s' :: "'e start_state" and r r'
    assume run': "Start_run evs' Start_init = Some s'"
      and nocompl': "\<forall>v. ManagerStartReturns v \<notin> set evs'"
      and r: "caller s = Returned r" and r': "caller s' = Returned r'"
    from sel r have "caller s = Returned None" by auto
    moreover have "caller s' = Returned None"
    proof (cases "goroutine s'")
      case NotSpawned
      with Start_reachable [OF run'] r' show ?thesis by auto
    next
      case InManagerStart
      with Start_reachable [OF run'] r' show ?thesis by auto
    next
      case (SendBlocked v)
      with Start_reachable [OF run'] nocompl' show ?thesis by auto
    next
      case Ended
      with Start_reachable [OF run'] nocompl' show ?thesis by auto
    qed
    ultimately show "caller s' = caller s" by simp
  qed
  from sel same show ?thesis by (intro conjI)
qed

theorem Start_clean_exit_is_nil_witness:
  "Start_run [GoFunc, ManagerStartReturns None, CtxCancel, CaseCtxDone] Start_init
     = Some \<lparr>ctx_Done = True, errChan = [], caller = Returned None,
             goroutine = (SendBlocked None :: error goroutine_pc)\<rparr>
   \<and> ManagerStartReturns None
       \<in> set [GoFunc, ManagerStartReturns None, CtxCancel, CaseCtxDone :: error event]
   \<and> Start_run [GoFunc, CtxCancel, CaseCtxDone] Start_init
     = Some \<lparr>ctx_Done = True, errChan = [], caller = Returned None,
             goroutine = (InManagerStart :: error goroutine_pc)\<rparr>
   \<and> caller \<lparr>ctx_Done = True, errChan = [], caller = Returned None,
              goroutine = (InManagerStart :: error goroutine_pc)\<rparr>
     = caller \<lparr>ctx_Done = True, errChan = [], caller = Returned None,
                goroutine = (SendBlocked None :: error goroutine_pc)\<rparr>"
proof -
  let ?evs = "[GoFunc, ManagerStartReturns None, CtxCancel, CaseCtxDone :: error event]"
  let ?s = "\<lparr>ctx_Done = True, errChan = [], caller = Returned None,
             goroutine = (SendBlocked None :: error goroutine_pc)\<rparr>"
  let ?evs' = "[GoFunc, CtxCancel, CaseCtxDone :: error event]"
  let ?s' = "\<lparr>ctx_Done = True, errChan = [], caller = Returned None,
              goroutine = (InManagerStart :: error goroutine_pc)\<rparr>"
  have run: "Start_run ?evs Start_init = Some ?s"
    by (simp add: Start_run_Cons Start_run_Nil Start_step_def Start_init_def)
  have compl: "ManagerStartReturns None \<in> set ?evs"
    by simp
  have run': "Start_run ?evs' Start_init = Some ?s'"
    by (simp add: Start_run_Cons Start_run_Nil Start_step_def Start_init_def)
  have other: "CtxCancel \<in> set ?evs' \<and> (\<forall>v. ManagerStartReturns v \<notin> set ?evs')
               \<and> (\<exists>r. caller ?s = Returned r) \<and> (\<exists>r'. caller ?s' = Returned r')"
    by simp
  from Start_clean_exit_is_nil [OF run compl]
  have "Start_run ?evs' Start_init = Some ?s' \<and> CtxCancel \<in> set ?evs'
          \<and> (\<forall>v. ManagerStartReturns v \<notin> set ?evs')
          \<and> (\<exists>r. caller ?s = Returned r) \<and> (\<exists>r'. caller ?s' = Returned r')
        \<longrightarrow> caller ?s' = caller ?s"
    by blast
  with run' other have "caller ?s' = caller ?s" by blast
  with run compl run' show ?thesis by (intro conjI)
qed

subsection \<open>Two goroutines and one channel\<close>

text \<open>
  C7, as stated, fails: \<open>errChan\<close> has no slot. \<open>Start\<close> leaves by cancellation and
  the manager then returns nil: the goroutine is blocked in its send, and the send
  cannot complete. With a channel of one slot the same send completes, and the
  goroutine ends with the value left in the channel. With one slot, too, the manager
  can return and the goroutine end while the caller is still in its \<open>select\<close>, which
  leaves one context alive, not two.
\<close>

theorem errChan_has_no_slot:
  "errChan_cap = 0
   \<and> Start_run [GoFunc, CtxCancel, CaseCtxDone, ManagerStartReturns None] Start_init
     = Some \<lparr>ctx_Done = True, errChan = [], caller = Returned None,
             goroutine = (SendBlocked None :: error goroutine_pc)\<rparr>
   \<and> Start_step SendBuffered
       \<lparr>ctx_Done = True, errChan = [], caller = Returned None,
        goroutine = (SendBlocked None :: error goroutine_pc)\<rparr>
     = None
   \<and> chan_step 1 SendBuffered
       \<lparr>ctx_Done = True, errChan = [], caller = Returned None,
        goroutine = (SendBlocked None :: error goroutine_pc)\<rparr>
     = Some \<lparr>ctx_Done = True, errChan = [None], caller = Returned None, goroutine = Ended\<rparr>
   \<and> chan_run 1 [GoFunc, ManagerStartReturns None, SendBuffered] Start_init
     = Some \<lparr>ctx_Done = False, errChan = [None], caller = AtSelect,
             goroutine = (Ended :: error goroutine_pc)\<rparr>
   \<and> active_contexts \<lparr>ctx_Done = False, errChan = [None], caller = AtSelect,
                       goroutine = (Ended :: error goroutine_pc)\<rparr> = 1"
  by (simp add: errChan_cap_def Start_run_Cons Start_run_Nil Start_step_def Start_init_def
      active_contexts_def)

text \<open>
  C7, amended. In every run of \<open>Start\<close>: at entry the goroutine does not exist and
  the \<open>go\<close> statement can be executed at once, leaving the caller in the \<open>select\<close>
  with the manager running in the goroutine; while the caller is in the \<open>select\<close>
  exactly two contexts are alive, the caller and that goroutine. \<open>errChan\<close> never
  holds a value and a send never completes into it: a value passes only when the
  \<open>select\<close> receives it. At most one receive happens, and the value it hands to the
  caller is the one value the manager's \<open>Start\<close> returned. The other steps of the
  caller, the \<open>go\<close> statement and the case \<open><-ctx.Done()\<close>, do to the caller the
  same whatever the state of the goroutine, and the steps of the goroutine leave the
  caller where it is.
\<close>

theorem Start_two_contexts_one_value:
  assumes run: "Start_run evs Start_init = Some s"
  shows "(caller s = AtEntry \<longrightarrow>
            goroutine s = NotSpawned
            \<and> Start_step GoFunc s = Some (s\<lparr>caller := AtSelect, goroutine := InManagerStart\<rparr>))
         \<and> (caller s = AtSelect \<longrightarrow> active_contexts s = 2)
         \<and> errChan s = [] \<and> Start_step SendBuffered s = None
         \<and> count_list evs CaseErrChan \<le> 1
         \<and> (CaseErrChan \<in> set evs \<longrightarrow>
              (\<exists>v. caller s = Returned v \<and> goroutine s = Ended
                   \<and> (\<forall>u. ManagerStartReturns u \<in> set evs \<longleftrightarrow> u = v)))
         \<and> (\<forall>g. map_option caller (Start_step GoFunc (s\<lparr>goroutine := g\<rparr>))
                   = map_option caller (Start_step GoFunc s)
                 \<and> map_option caller (Start_step CaseCtxDone (s\<lparr>goroutine := g\<rparr>))
                   = map_option caller (Start_step CaseCtxDone s))
         \<and> (\<forall>v t. Start_step (ManagerStartReturns v) s = Some t \<longrightarrow> caller t = caller s)"
proof -
  note inv = Start_reachable [OF run]
  note cnt = Start_receives_once [OF run]
  have launch: "caller s = AtEntry \<longrightarrow>
            goroutine s = NotSpawned
            \<and> Start_step GoFunc s = Some (s\<lparr>caller := AtSelect, goroutine := InManagerStart\<rparr>)"
    using inv by (cases "goroutine s") (auto simp: Start_step_def)
  have two: "caller s = AtSelect \<longrightarrow> active_contexts s = 2"
    using inv by (cases "goroutine s") (auto simp: active_contexts_def)
  have empty: "errChan s = []"
    using inv by simp
  have nosend: "Start_step SendBuffered s = None"
    by (rule step_SendBuffered)
  have once: "count_list evs CaseErrChan \<le> 1"
    using cnt by simp
  have val: "CaseErrChan \<in> set evs \<longrightarrow>
              (\<exists>v. caller s = Returned v \<and> goroutine s = Ended
                   \<and> (\<forall>u. ManagerStartReturns u \<in> set evs \<longleftrightarrow> u = v))"
  proof
    assume "CaseErrChan \<in> set evs"
    then have "count_list evs CaseErrChan \<noteq> 0" by (simp add: count_list_0_iff)
    with cnt have "goroutine s = Ended" by (simp split: if_splits)
    with inv show "\<exists>v. caller s = Returned v \<and> goroutine s = Ended
                   \<and> (\<forall>u. ManagerStartReturns u \<in> set evs \<longleftrightarrow> u = v)"
      by auto
  qed
  have frame: "\<forall>g. map_option caller (Start_step GoFunc (s\<lparr>goroutine := g\<rparr>))
                   = map_option caller (Start_step GoFunc s)
                 \<and> map_option caller (Start_step CaseCtxDone (s\<lparr>goroutine := g\<rparr>))
                   = map_option caller (Start_step CaseCtxDone s)"
    by (simp add: Start_step_def)
  have own: "\<forall>v t. Start_step (ManagerStartReturns v) s = Some t \<longrightarrow> caller t = caller s"
    using step_ManagerStartReturns by blast
  from launch two empty nosend once val frame own show ?thesis by (intro conjI)
qed

theorem Start_two_contexts_one_value_witness:
  "Start_run [] Start_init = Some (Start_init :: error start_state)
   \<and> caller (Start_init :: error start_state) = AtEntry
   \<and> Start_step GoFunc Start_init
     = Some \<lparr>ctx_Done = False, errChan = [], caller = AtSelect,
             goroutine = (InManagerStart :: error goroutine_pc)\<rparr>
   \<and> Start_run [GoFunc] Start_init
     = Some \<lparr>ctx_Done = False, errChan = [], caller = AtSelect,
             goroutine = (InManagerStart :: error goroutine_pc)\<rparr>
   \<and> active_contexts \<lparr>ctx_Done = False, errChan = [], caller = AtSelect,
                       goroutine = (InManagerStart :: error goroutine_pc)\<rparr> = 2
   \<and> Start_run [GoFunc, ManagerStartReturns None, CaseErrChan] Start_init
     = Some \<lparr>ctx_Done = False, errChan = [], caller = Returned None,
             goroutine = (Ended :: error goroutine_pc)\<rparr>
   \<and> CaseErrChan \<in> set [GoFunc, ManagerStartReturns None, CaseErrChan :: error event]
   \<and> count_list [GoFunc, ManagerStartReturns None, CaseErrChan :: error event] CaseErrChan \<le> 1"
proof -
  let ?s1 = "\<lparr>ctx_Done = False, errChan = [], caller = AtSelect,
              goroutine = (InManagerStart :: error goroutine_pc)\<rparr>"
  let ?evs = "[GoFunc, ManagerStartReturns None, CaseErrChan :: error event]"
  have run0: "Start_run [] Start_init = Some (Start_init :: error start_state)"
    by (simp add: Start_run_Nil)
  have entry: "caller (Start_init :: error start_state) = AtEntry"
    by (simp add: Start_init_def)
  have run1: "Start_run [GoFunc] Start_init = Some ?s1"
    by (simp add: Start_run_Cons Start_run_Nil Start_step_def Start_init_def)
  have run2: "Start_run ?evs Start_init
                = Some \<lparr>ctx_Done = False, errChan = [], caller = Returned None,
                        goroutine = (Ended :: error goroutine_pc)\<rparr>"
    by (simp add: Start_run_Cons Start_run_Nil Start_step_def Start_init_def)
  have recv: "CaseErrChan \<in> set ?evs"
    by simp
  from Start_two_contexts_one_value [OF run0] entry
  have a: "Start_step GoFunc Start_init = Some ?s1"
    by (simp add: Start_init_def)
  from Start_two_contexts_one_value [OF run1]
  have b: "active_contexts ?s1 = 2"
    by simp
  from Start_two_contexts_one_value [OF run2]
  have c: "count_list ?evs CaseErrChan \<le> 1"
    by (elim conjE)
  from run0 entry a run1 b run2 recv c show ?thesis by (intro conjI)
qed

end
